theory Spec2Isabelle
  imports Complex_Main "HOL-Library.Multiset" "HOL-Library.Sublist"
begin

section \<open>SourceForgeSpeedTest: the probing and selection engine of main.go\<close>

text \<open>
  The program reads lists of mirror hosts, pings every host, times concurrent downloads from
  the hosts that answered, sorts by latency and stores the name of the first host of each
  sorted list in a package-level variable that the redirect handlers read.

  Everything the program gets from outside (the files, the ICMP library go-ping, net/http,
  the gin server, the library routine sort.Sort) is a parameter of the model; everything the
  program itself computes is a function below, under the name it has in main.go. The second
  source file of the repository is an earlier main package: its Domain, ByLatency, tping,
  download, measureLatencyAndDownload, excludeDownloadError and readDomainsFromFile are the
  same text as in main.go.
\<close>

subsection \<open>Domain and the ByLatency ordering\<close>

text \<open>
  \<^verbatim>\<open>type Domain struct { Name string; Latency int; Download int; DownloadErr bool }\<close>
  A Go int is 64 bits wide here. Latencies are only compared and copied, so they are HOL
  integers; the one place that adds ints (download) wraps explicitly, see \<open>wrap64\<close>.
\<close>

record Domain =
  Name :: string
  Latency :: int
  Download :: int
  DownloadErr :: bool

text \<open>\<^verbatim>\<open>func (a ByLatency) Less(i, j int) bool { return a[i].Latency < a[j].Latency }\<close>\<close>

definition ByLatency_Less :: "Domain \<Rightarrow> Domain \<Rightarrow> bool" where
  "ByLatency_Less a b \<longleftrightarrow> Latency a < Latency b"

text \<open>
  sort.Sort belongs to the Go standard library, not to the repository. Its documentation
  promises that the data ends up in ascending order as determined by Less, by swapping
  elements only, and says that the sort is not guaranteed to be stable. That contract is
  \<open>sort_Sort_post\<close>; the routine itself is a parameter \<open>srt\<close> of every function that
  calls it, constrained by \<open>sort_Sort_ok\<close>. What the library's code does on short slices
  is modelled further down (\<open>sort_Sort\<close>).
\<close>

definition sort_Sort_post :: "Domain list \<Rightarrow> Domain list \<Rightarrow> bool" where
  "sort_Sort_post xs ys \<longleftrightarrow>
     mset ys = mset xs \<and> sorted_wrt (\<lambda>a b. \<not> ByLatency_Less b a) ys"

definition sort_Sort_ok :: "(Domain list \<Rightarrow> Domain list) \<Rightarrow> bool" where
  "sort_Sort_ok srt \<longleftrightarrow> (\<forall>xs. sort_Sort_post xs (srt xs))"

text \<open>
  A routine that meets the contract, to run the model on concrete lists: an insertion sort
  that keeps candidates of equal latency in their input order. On slices of at most 12
  elements it is what sort.Sort computes (\<open>sort_Sort_short\<close> below).
\<close>

definition insertion_sort :: "Domain list \<Rightarrow> Domain list" where
  "insertion_sort xs = sort_key Latency xs"

text \<open>
  Stability as the specification words it: candidates of equal latency keep their relative
  input order, that is, for every latency the candidates that have it appear in the output
  in the order they have in the input.
\<close>

definition keeps_tie_order :: "Domain list \<Rightarrow> Domain list \<Rightarrow> bool" where
  "keeps_tie_order xs ys \<longleftrightarrow>
     list_all (\<lambda>k. filter (\<lambda>d. Latency d = k) ys = filter (\<lambda>d. Latency d = k) xs)
       (map Latency xs)"

subsection \<open>sort.Sort on short slices\<close>

text \<open>
  The routine behind sort.Sort since Go 1.19 is a pattern-defeating quicksort (pdqsort in
  the library's zsortinterface.go) over the methods Len, Less and Swap of ByLatency. The
  functions of the library that a slice of at most 13 elements reaches are modelled here,
  over the slice as a list and with the library's names.

  \<^verbatim>\<open>func (a ByLatency) Swap(i, j int) { a[i], a[j] = a[j], a[i] }\<close>
\<close>

definition Swap :: "Domain list \<Rightarrow> nat \<Rightarrow> nat \<Rightarrow> Domain list" where
  "Swap data i j = data[i := data ! j, j := data ! i]"

text \<open>\<^verbatim>\<open>data.Less(i, j)\<close>, the method of ByLatency on two indices.\<close>

definition Less :: "Domain list \<Rightarrow> nat \<Rightarrow> nat \<Rightarrow> bool" where
  "Less data i j \<longleftrightarrow> ByLatency_Less (data ! i) (data ! j)"

text \<open>
  \<^verbatim>\<open>
  func insertionSort(data Interface, a, b int) {
      for i := a + 1; i < b; i++ {
          for j := i; j > a && data.Less(j, j-1); j-- {
              data.Swap(j, j-1)
          }
      }
  }
  \<close>
  \<open>insertionSort_inner a i\<close> is the inner loop started at \<open>j = i\<close>.
\<close>

fun insertionSort_inner :: "nat \<Rightarrow> nat \<Rightarrow> Domain list \<Rightarrow> Domain list" where
  "insertionSort_inner a 0 data = data"
| "insertionSort_inner a (Suc j) data =
     (if a < Suc j \<and> Less data (Suc j) j then insertionSort_inner a j (Swap data (Suc j) j)
      else data)"

definition insertionSort :: "Domain list \<Rightarrow> nat \<Rightarrow> nat \<Rightarrow> Domain list" where
  "insertionSort data a b = fold (insertionSort_inner a) [Suc a..<b] data"

text \<open>
  The choice of the pivot. order2 returns two indices in the order of their elements and
  counts a swap when it exchanges them; median orders three indices by three calls of
  order2 and returns the middle one; medianAdjacent is the median of an index and its two
  neighbours.
  \<^verbatim>\<open>
  func order2(data Interface, a, b int, swaps *int) (int, int) {
      if data.Less(b, a) { *swaps++; return b, a }
      return a, b
  }
  func median(data Interface, a, b, c int, swaps *int) int {
      a, b = order2(data, a, b, swaps)
      b, c = order2(data, b, c, swaps)
      a, b = order2(data, a, b, swaps)
      return b
  }
  \<close>
\<close>

datatype sortedHint = unknownHint | increasingHint | decreasingHint

definition order2 :: "Domain list \<Rightarrow> nat \<Rightarrow> nat \<Rightarrow> nat \<Rightarrow> nat \<times> nat \<times> nat" where
  "order2 data a b swaps = (if Less data b a then (b, a, swaps + 1) else (a, b, swaps))"

definition median :: "Domain list \<Rightarrow> nat \<Rightarrow> nat \<Rightarrow> nat \<Rightarrow> nat \<Rightarrow> nat \<times> nat" where
  "median data a b c swaps =
     (case order2 data a b swaps of (a1, b1, s1) \<Rightarrow>
      case order2 data b1 c s1 of (b2, c2, s2) \<Rightarrow>
      case order2 data a1 b2 s2 of (a3, b3, s3) \<Rightarrow> (b3, s3))"

definition medianAdjacent :: "Domain list \<Rightarrow> nat \<Rightarrow> nat \<Rightarrow> nat \<times> nat" where
  "medianAdjacent data a swaps = median data (a - 1) a (a + 1) swaps"

text \<open>
  \<^verbatim>\<open>
  func choosePivot(data Interface, a, b int) (pivot int, hint sortedHint) {
      const ( shortestNinther = 50; maxSwaps = 4 * 3 )
      l := b - a
      var ( swaps int; i = a + l/4*1; j = a + l/4*2; k = a + l/4*3 )
      if l >= 8 {
          if l >= shortestNinther {
              i = medianAdjacent(data, i, &swaps)
              j = medianAdjacent(data, j, &swaps)
              k = medianAdjacent(data, k, &swaps)
          }
          j = median(data, i, j, k, &swaps)
      }
      switch swaps {
      case 0:        return j, increasingHint
      case maxSwaps: return j, decreasingHint
      default:       return j, unknownHint
      }
  }
  \<close>
\<close>

definition choosePivot :: "Domain list \<Rightarrow> nat \<Rightarrow> nat \<Rightarrow> nat \<times> sortedHint" where
  "choosePivot data a b =
     (let l = b - a;
          i = a + l div 4 * 1;
          j = a + l div 4 * 2;
          k = a + l div 4 * 3;
          (pivot, swaps) =
            (if 8 \<le> l then
               (if 50 \<le> l then
                  (case medianAdjacent data i 0 of (i1, s1) \<Rightarrow>
                   case medianAdjacent data j s1 of (j1, s2) \<Rightarrow>
                   case medianAdjacent data k s2 of (k1, s3) \<Rightarrow> median data i1 j1 k1 s3)
                else median data i j k 0)
             else (j, 0))
      in (pivot, if swaps = 0 then increasingHint
                 else if swaps = 12 then decreasingHint else unknownHint))"

text \<open>
  partialInsertionSort on a slice of fewer than 50 elements (shortestShifting) moves
  nothing: it runs \<^verbatim>\<open>for i < b && !data.Less(i, i-1) { i++ }\<close> from \<open>i = a + 1\<close>, returns true
  when that reaches \<open>b\<close> (no element is less than the one before it) and false otherwise.
  \<open>run_up\<close> is that loop.
\<close>

function run_up :: "Domain list \<Rightarrow> nat \<Rightarrow> nat \<Rightarrow> nat" where
  "run_up data b i = (if i < b \<and> \<not> Less data i (i - 1) then run_up data b (Suc i) else i)"
  by pat_completeness auto
termination
  by (relation "measure (\<lambda>(data, b, i). b - i)") auto

declare run_up.simps [simp del]

definition partialInsertionSort :: "Domain list \<Rightarrow> nat \<Rightarrow> nat \<Rightarrow> bool" where
  "partialInsertionSort data a b \<longleftrightarrow> run_up data b (a + 1) = b"

text \<open>
  \<^verbatim>\<open>
  func partition(data Interface, a, b, pivot int) (newpivot int, alreadyPartitioned bool) {
      data.Swap(a, pivot)
      i, j := a+1, b-1
      for i <= j && data.Less(i, a) { i++ }
      for i <= j && !data.Less(j, a) { j-- }
      if i > j { data.Swap(j, a); return j, true }
      data.Swap(i, j)
      i++
      j--
      for {
          for i <= j && data.Less(i, a) { i++ }
          for i <= j && !data.Less(j, a) { j-- }
          if i > j { break }
          data.Swap(i, j)
          i++
          j--
      }
      data.Swap(j, a)
      return j, false
  }
  \<close>
  \<open>scan_up\<close> and \<open>scan_down\<close> are the two inner loops, \<open>partition_loop\<close> is the outer one. In
  partition \<open>i\<close> is at least \<open>a + 1\<close>, so \<open>j\<close> is decremented only where it is positive.
\<close>

function scan_up :: "Domain list \<Rightarrow> nat \<Rightarrow> nat \<Rightarrow> nat \<Rightarrow> nat" where
  "scan_up data a j i = (if i \<le> j \<and> Less data i a then scan_up data a j (Suc i) else i)"
  by pat_completeness auto
termination
  by (relation "measure (\<lambda>(data, a, j, i). Suc j - i)") auto

declare scan_up.simps [simp del]

fun scan_down :: "Domain list \<Rightarrow> nat \<Rightarrow> nat \<Rightarrow> nat \<Rightarrow> nat" where
  "scan_down data a i 0 = 0"
| "scan_down data a i (Suc j) =
     (if i \<le> Suc j \<and> \<not> Less data (Suc j) a then scan_down data a i j else Suc j)"

lemma scan_up_ge: "i \<le> scan_up data a j i"
  by (induction data a j i rule: scan_up.induct) (subst scan_up.simps, auto)

lemma scan_down_le: "scan_down data a i j \<le> j"
  by (induction j) auto

function partition_loop :: "Domain list \<Rightarrow> nat \<Rightarrow> nat \<Rightarrow> nat \<Rightarrow> Domain list \<times> nat" where
  "partition_loop data a i j =
     (let i' = scan_up data a j i;
          j' = scan_down data a i' j
      in if j' < i' then (data, j')
         else partition_loop (Swap data i' j') a (Suc i') (j' - 1))"
  by pat_completeness auto
termination
proof (relation "measure (\<lambda>(data, a, i, j). Suc j - i)")
  show "wf (measure (\<lambda>(data, a, i, j). Suc j - i))" by simp
next
  fix data :: "Domain list" and a i j i' j'
  assume "i' = scan_up data a j i" "j' = scan_down data a i' j" "\<not> j' < i'"
  then have "i \<le> i'" "j' \<le> j" "i' \<le> j'"
    using scan_up_ge [of i data a j] scan_down_le [of data a i' j] by simp_all
  then show "((Swap data i' j', a, Suc i', j' - 1), (data, a, i, j))
        \<in> measure (\<lambda>(data, a, i, j). Suc j - i)"
    by simp
qed

declare partition_loop.simps [simp del]

definition partition :: "Domain list \<Rightarrow> nat \<Rightarrow> nat \<Rightarrow> nat \<Rightarrow> Domain list \<times> nat \<times> bool" where
  "partition data a b pivot =
     (let d1 = Swap data a pivot;
          i = scan_up d1 a (b - 1) (a + 1);
          j = scan_down d1 a i (b - 1)
      in if j < i then (Swap d1 j a, j, True)
         else case partition_loop (Swap d1 i j) a (Suc i) (j - 1) of
                (d2, j') \<Rightarrow> (Swap d2 j' a, j', False))"

text \<open>
  pdqsort on a slice of 13 elements, called as \<^verbatim>\<open>pdqsort(data, 0, 13, 4)\<close>. The slice is longer
  than maxInsertion = 12 and the limit is not zero, so the pivot is chosen; with fewer than
  50 elements the hint is never decreasingHint. With increasingHint the slice is tried by
  partialInsertionSort and returned if that finds it in order. Else (\<open>a\<close> being \<open>0\<close>, there is
  no partitionEqual) the slice is partitioned; the shorter part is sorted by the recursive
  call and the longer part by the next round of the loop, and both have at most 12
  elements, so both are sorted by insertionSort.
  \<^verbatim>\<open>
  pivot, hint := choosePivot(data, a, b)
  if wasBalanced && wasPartitioned && hint == increasingHint {
      if partialInsertionSort(data, a, b) { return }
  }
  mid, alreadyPartitioned := partition(data, a, b, pivot)
  leftLen, rightLen := mid-a, b-mid
  if leftLen < rightLen { pdqsort(data, a, mid, limit); a = mid + 1 }
  else                  { pdqsort(data, mid+1, b, limit); b = mid }
  \<close>
\<close>

definition pdqsort_13 :: "Domain list \<Rightarrow> Domain list" where
  "pdqsort_13 data =
     (case choosePivot data 0 13 of (pivot, hint) \<Rightarrow>
        if hint = increasingHint \<and> partialInsertionSort data 0 13 then data
        else case partition data 0 13 pivot of (d, mid, alreadyPartitioned) \<Rightarrow>
          if mid - 0 < 13 - mid then insertionSort (insertionSort d 0 mid) (mid + 1) 13
          else insertionSort (insertionSort d (mid + 1) 13) 0 mid)"

text \<open>
  \<^verbatim>\<open>
  func Sort(data Interface) {
      n := data.Len()
      if n <= 1 { return }
      limit := bits.Len(uint(n))
      pdqsort(data, 0, n, limit)
  }
  \<close>
  where pdqsort begins with \<^verbatim>\<open>if length <= maxInsertion { insertionSort(data, a, b); return }\<close>.
  The result is \<open>None\<close> for a slice of more than 13 elements: such a slice reaches parts of
  the library (heapSort, breakPatterns, partitionEqual) that are not modelled, and is known
  by the contract only.
\<close>

definition sort_Sort :: "Domain list \<Rightarrow> Domain list option" where
  "sort_Sort data =
     (let n = length data in
      if n \<le> 1 then Some data
      else if n \<le> 12 then Some (insertionSort data 0 n)
      else if n = 13 then Some (pdqsort_13 data)
      else None)"

text \<open>
  For the proofs: the insertion of one element into a sorted prefix as a function on
  lists (the prefix reversed, its last element first), and the sort that inserts the
  elements one after the other.
\<close>

fun ins_rev :: "Domain \<Rightarrow> Domain list \<Rightarrow> Domain list" where
  "ins_rev x [] = [x]"
| "ins_rev x (y # ys) = (if Latency x < Latency y then y # ins_rev x ys else x # y # ys)"

definition isort :: "Domain list \<Rightarrow> Domain list" where
  "isort xs = foldl (\<lambda>acc x. rev (ins_rev x (rev acc))) [] xs"

subsection \<open>The probe: tping\<close>

text \<open>
  What go-ping reports for one host. \<open>PacketLoss\<close> is the library's float64 percentage (a
  number: the library divides by the count of packets sent, and Run sends at least one);
  \<open>AvgRtt\<close> is a time.Duration, an integer count of nanoseconds.
\<close>

record Statistics =
  PacketLoss :: real
  AvgRtt :: int

datatype ping_run =
    NewPingerFails
  | RunFails
  | Finished Statistics

text \<open>The Go error values the program returns.\<close>

datatype error = ErrNewPinger | ErrRun | ErrPacketLoss | ErrNodeAbnormal

text \<open>\<^verbatim>\<open>Duration.Milliseconds()\<close>: integer division of the nanoseconds, truncated towards zero.\<close>

definition Milliseconds :: "int \<Rightarrow> int" where
  "Milliseconds d = (if d < 0 then - ((- d) div 1000000) else d div 1000000)"

text \<open>
  \<^verbatim>\<open>
  pinger, err := ping.NewPinger(domain);  if err != nil { return -1, err }
  err = pinger.Run();                     if err != nil { return -1, err }
  stats := pinger.Statistics()
  if stats.PacketLoss > 0 { return -1, fmt.Errorf(...) }
  return int(stats.AvgRtt.Milliseconds()), nil
  \<close>
\<close>

fun tping :: "ping_run \<Rightarrow> int \<times> error option" where
  "tping NewPingerFails = (- 1, Some ErrNewPinger)"
| "tping RunFails = (- 1, Some ErrRun)"
| "tping (Finished stats) =
     (if PacketLoss stats > 0 then (- 1, Some ErrPacketLoss)
      else (Milliseconds (AvgRtt stats), None))"

subsection \<open>The throughput sampler: download\<close>

text \<open>
  One download attempt either fails in http.Get or gets its response after some elapsed
  milliseconds. \<^verbatim>\<open>time.Since(start)\<close> reads the monotonic clock, so the elapsed time is
  never negative: it is a natural number.
\<close>

datatype attempt = GetError | Response nat

text \<open>What the attempt's goroutine sends on speedCh: \<open>-1\<close> on error, else the elapsed time.\<close>

fun sent :: "attempt \<Rightarrow> int" where
  "sent GetError = - 1"
| "sent (Response elapsed) = int elapsed"

text \<open>Addition of two Go ints: the sum wraps around in 64 bits, two's complement.\<close>

definition wrap64 :: "int \<Rightarrow> int" where
  "wrap64 x = (x + 2 ^ 63) mod 2 ^ 64 - 2 ^ 63"

text \<open>Go's \<open>/\<close> on ints truncates towards zero (the divisor is not zero where it is used).\<close>

definition go_div :: "int \<Rightarrow> int \<Rightarrow> int" where
  "go_div a b = sgn a * sgn b * (\<bar>a\<bar> div \<bar>b\<bar>)"

text \<open>
  The receiving loop
  \<^verbatim>\<open>for speed := range speedCh { if speed != -1 { totalSpeed += speed; count++ } }\<close>
  over the values in the order they arrive (\<open>cnt\<close> is the variable \<open>count\<close>).
\<close>

fun receive :: "int \<Rightarrow> int \<Rightarrow> int list \<Rightarrow> int \<times> int" where
  "receive totalSpeed cnt [] = (totalSpeed, cnt)"
| "receive totalSpeed cnt (speed # rest) =
     (if speed \<noteq> - 1 then receive (wrap64 (totalSpeed + speed)) (wrap64 (cnt + 1)) rest
      else receive totalSpeed cnt rest)"

text \<open>
  \<open>download threads get\<close>: the goroutines \<open>0 .. threads - 1\<close> each make one attempt, the
  \<open>i\<close>-th with outcome \<open>get i\<close>; the channel is closed when all have sent. The values are
  received here in the order of the goroutines; the result does not depend on the order
  (\<open>download_any_order\<close> below).
  \<^verbatim>\<open>
  if count == 0 { return -1, fmt.Errorf(...) }
  return totalSpeed / count, nil
  \<close>
\<close>

definition download :: "int \<Rightarrow> (nat \<Rightarrow> attempt) \<Rightarrow> int \<times> error option" where
  "download threads get =
     (case receive 0 0 (map (\<lambda>i. sent (get i)) [0..<nat threads]) of
        (totalSpeed, cnt) \<Rightarrow>
          if cnt = 0 then (- 1, Some ErrNodeAbnormal)
          else (go_div totalSpeed cnt, None))"

text \<open>The elapsed times of the attempts that succeeded, in the order of the attempts.\<close>

fun succeeded :: "attempt list \<Rightarrow> nat list" where
  "succeeded [] = []"
| "succeeded (GetError # rest) = succeeded rest"
| "succeeded (Response elapsed # rest) = elapsed # succeeded rest"

definition attempts :: "int \<Rightarrow> (nat \<Rightarrow> attempt) \<Rightarrow> attempt list" where
  "attempts threads get = map get [0..<nat threads]"

text \<open>An outcome function from a list of outcomes (attempts past its end fail).\<close>

definition from_list :: "attempt list \<Rightarrow> nat \<Rightarrow> attempt" where
  "from_list outcomes i = (if i < length outcomes then outcomes ! i else GetError)"

subsection \<open>Measuring a list of candidates\<close>

text \<open>
  The network as one measuring pass sees it: the outcome of the ping and of every download
  attempt of the goroutine started for slice index \<open>i\<close> on host \<open>name\<close>.
\<close>

record net =
  ping :: "nat \<Rightarrow> string \<Rightarrow> ping_run"
  http_get :: "nat \<Rightarrow> string \<Rightarrow> nat \<Rightarrow> attempt"

text \<open>
  The goroutine of updateDomainsLatency for index \<open>i\<close>, with \<open>ds\<close> for the slice that the
  pointer \<open>domains\<close> refers to:
  \<^verbatim>\<open>latency, _ := tping(ds[i].Name);  ds[i].Latency = latency\<close>
\<close>

definition update_latency :: "net \<Rightarrow> nat \<times> Domain \<Rightarrow> Domain" where
  "update_latency n = (\<lambda>(i, d). d\<lparr>Latency := fst (tping (ping n i (Name d)))\<rparr>)"

text \<open>
  Each goroutine reads and writes only its own element and \<^verbatim>\<open>wg.Wait()\<close> joins them all, so
  the slice after the barrier is the element-wise result.
\<close>

definition updateDomainsLatency :: "net \<Rightarrow> Domain list \<Rightarrow> Domain list" where
  "updateDomainsLatency n domains = map (update_latency n) (enumerate 0 domains)"

text \<open>
  The goroutine of measureLatencyAndDownload for index \<open>i\<close>, again with \<open>ds\<close> for the slice:
  \<^verbatim>\<open>
  latency, _ := tping(ds[i].Name)
  ds[i].Latency = latency
  if latency != -1 {
      downloadSpeed, err := download(ds[i].Name)
      if err != nil { ds[i].DownloadErr = true; return }
      ds[i].Download = downloadSpeed
  }
  \<close>
\<close>

definition measure_one :: "int \<Rightarrow> net \<Rightarrow> nat \<times> Domain \<Rightarrow> Domain" where
  "measure_one threads n = (\<lambda>(i, d).
     let latency = fst (tping (ping n i (Name d)));
         d1 = d\<lparr>Latency := latency\<rparr>
     in if latency \<noteq> - 1 then
          (case download threads (http_get n i (Name d)) of
             (downloadSpeed, Some err) \<Rightarrow> d1\<lparr>DownloadErr := True\<rparr>
           | (downloadSpeed, None) \<Rightarrow> d1\<lparr>Download := downloadSpeed\<rparr>)
        else d1)"

text \<open>
  \<^verbatim>\<open>for _, d := range *domains { if !d.DownloadErr { filtered = append(filtered, d) } }\<close>
\<close>

definition excludeDownloadError :: "Domain list \<Rightarrow> Domain list" where
  "excludeDownloadError domains = filter (\<lambda>d. \<not> DownloadErr d) domains"

definition measureLatencyAndDownload :: "int \<Rightarrow> net \<Rightarrow> Domain list \<Rightarrow> Domain list" where
  "measureLatencyAndDownload threads n domains =
     excludeDownloadError (map (measure_one threads n) (enumerate 0 domains))"

subsection \<open>Files, crashes and the fastest domain of a file\<close>

text \<open>Ways the process ends: os.Exit with a status, or the runtime panic of an index out of range.\<close>

datatype crash = Exit int | PanicIndexOutOfRange

text \<open>
  The world during one refresh cycle: the lines of each file (\<open>None\<close> when os.Open fails), the
  network as the pass over the main list sees it, and as the pass over each file's list
  sees it.
\<close>

record world =
  files :: "string \<Rightarrow> string list option"
  all_net :: net
  file_net :: "string \<Rightarrow> net"

text \<open>\<^verbatim>\<open>Domain{Name: scanner.Text()}\<close>: the fields that are not named are zero.\<close>

definition new_Domain :: "string \<Rightarrow> Domain" where
  "new_Domain l = \<lparr>Name = l, Latency = 0, Download = 0, DownloadErr = False\<rparr>"

text \<open>
  readDomainsFromFile: a file that cannot be opened ends the process with status 1; else one
  Domain per line of the file (a blank line gives a Domain with the empty name).
\<close>

definition readDomainsFromFile :: "world \<Rightarrow> string \<Rightarrow> crash + Domain list" where
  "readDomainsFromFile w filename =
     (case files w filename of
        None \<Rightarrow> Inl (Exit 1)
      | Some lines \<Rightarrow> Inr (map new_Domain lines))"

text \<open>\<^verbatim>\<open>domains[0].Name\<close>: indexing an empty slice panics.\<close>

fun first_Name :: "Domain list \<Rightarrow> crash + string" where
  "first_Name [] = Inl PanicIndexOutOfRange"
| "first_Name (d # ds) = Inr (Name d)"

text \<open>The slice findFastestDomain has after its call of sort.Sort.\<close>

definition ranked :: "(Domain list \<Rightarrow> Domain list) \<Rightarrow> int \<Rightarrow> net \<Rightarrow> Domain list \<Rightarrow> Domain list" where
  "ranked srt threads n domains = srt (measureLatencyAndDownload threads n domains)"

text \<open>
  \<^verbatim>\<open>
  domains := readDomainsFromFile(filename)
  measureLatencyAndDownload(&domains)
  sort.Sort(ByLatency(domains))
  return domains[0].Name
  \<close>
\<close>

definition findFastestDomain ::
  "(Domain list \<Rightarrow> Domain list) \<Rightarrow> int \<Rightarrow> world \<Rightarrow> string \<Rightarrow> crash + string" where
  "findFastestDomain srt threads w filename =
     (case readDomainsFromFile w filename of
        Inl c \<Rightarrow> Inl c
      | Inr domains \<Rightarrow> first_Name (ranked srt threads (file_net w filename) domains))"

subsection \<open>The stored selections and the refresh cycle\<close>

text \<open>
  The three package-level variables the handlers read. Go initialises a string variable to
  the empty string.
\<close>

record globals =
  multifastestdomain :: string
  singlefastestdomain :: string
  allfastestdomain :: string

definition zero_globals :: globals where
  "zero_globals = \<lparr>multifastestdomain = [], singlefastestdomain = [], allfastestdomain = []\<rparr>"

text \<open>
  \<^verbatim>\<open>
  updateDomainsLatency(domains)
  sort.Sort(ByLatency(ds))
  allfastestdomain = ds[0].Name
  multifastestdomain = findFastestDomain("multi.txt")
  singlefastestdomain = findFastestDomain("single.txt")
  \<close>
  (\<open>ds\<close> is the slice that the pointer \<open>domains\<close> refers to.) The function returns the slice
  it has sorted in place together with the variables, or the crash that ended the process.
\<close>

definition updateAndStoreFastestDomains ::
  "(Domain list \<Rightarrow> Domain list) \<Rightarrow> int \<Rightarrow> world \<Rightarrow> Domain list \<Rightarrow> globals
     \<Rightarrow> crash + Domain list \<times> globals" where
  "updateAndStoreFastestDomains srt threads w domains g =
     (let sorted_domains = srt (updateDomainsLatency (all_net w) domains) in
      case first_Name sorted_domains of
        Inl c \<Rightarrow> Inl c
      | Inr a \<Rightarrow>
         (case findFastestDomain srt threads w ''multi.txt'' of
            Inl c \<Rightarrow> Inl c
          | Inr m \<Rightarrow>
             (case findFastestDomain srt threads w ''single.txt'' of
                Inl c \<Rightarrow> Inl c
              | Inr s \<Rightarrow>
                  Inr (sorted_domains,
                       g\<lparr>allfastestdomain := a, multifastestdomain := m,
                         singlefastestdomain := s\<rparr>))))"

subsection \<open>The redirect handlers\<close>

datatype route = All | Single | Multi

text \<open>The variable the handler of a route reads.\<close>

fun selection :: "globals \<Rightarrow> route \<Rightarrow> string" where
  "selection g All = allfastestdomain g"
| "selection g Single = singlefastestdomain g"
| "selection g Multi = multifastestdomain g"





subsection \<open>main\<close>

text \<open>
  The command-line variables the program reads: \<open>version\<close> (\<^verbatim>\<open>-v\<close>), \<open>file\<close> (\<^verbatim>\<open>-file\<close>) and
  \<open>threads\<close> (\<^verbatim>\<open>-threads\<close>). (The ping count, the ping timeout and the port only reach the
  libraries.)
\<close>

record flags =
  flag_v :: bool
  flag_file :: string
  flag_threads :: int

text \<open>
  gin's \<^verbatim>\<open>r.Run\<close> blocks the calling goroutine for as long as the server listens; it returns
  only with an error (the port cannot be bound, say). startGinServer logs that error and
  returns.
\<close>

datatype run_result = Blocks | ReturnsError

text \<open>
  The environment of a run: the world during the \<open>k\<close>-th refresh cycle (\<open>0\<close> is the cycle at
  startup) and what the \<open>k\<close>-th call of startGinServer does.
\<close>

record env =
  world_at :: "nat \<Rightarrow> world"
  r_Run :: "nat \<Rightarrow> run_result"

text \<open>
  Where a run stands once the ticker has delivered a given number of ticks: the process
  has ended; or it sits inside r.Run, serving requests from the stored variables, after
  some number of refresh cycles of the ticker loop; or it is in the ticker loop, waiting
  for the next tick.
\<close>

datatype outcome =
    Ended crash
  | Serving globals nat
  | AwaitingTick globals nat

text \<open>
  \<^verbatim>\<open>
  for range ticker.C {
      updateAndStoreFastestDomains(&domains)
      startGinServer()
  }
  \<close>
  \<open>ticks\<close> is the number of ticks still to come, \<open>k\<close> the number of loop iterations done.
\<close>

fun ticker_loop ::
  "(Domain list \<Rightarrow> Domain list) \<Rightarrow> flags \<Rightarrow> env \<Rightarrow> nat \<Rightarrow> nat \<Rightarrow> Domain list \<Rightarrow> globals
     \<Rightarrow> outcome" where
  "ticker_loop srt fl e 0 k domains g = AwaitingTick g k"
| "ticker_loop srt fl e (Suc ticks) k domains g =
     (case updateAndStoreFastestDomains srt (flag_threads fl) (world_at e (Suc k)) domains g of
        Inl c \<Rightarrow> Ended c
      | Inr (domains', g') \<Rightarrow>
         (case r_Run e (Suc k) of
            Blocks \<Rightarrow> Serving g' (Suc k)
          | ReturnsError \<Rightarrow> ticker_loop srt fl e ticks (Suc k) domains' g'))"

text \<open>
  \<^verbatim>\<open>
  if version { fmt.Print("1.0.0"); os.Exit(0) }
  domains := readDomainsFromFile(file)
  updateAndStoreFastestDomains(&domains)
  startGinServer()
  ticker := time.NewTicker(10 * time.Minute)
  for range ticker.C { ... }
  \<close>
\<close>

definition main :: "(Domain list \<Rightarrow> Domain list) \<Rightarrow> flags \<Rightarrow> env \<Rightarrow> nat \<Rightarrow> outcome" where
  "main srt fl e ticks =
     (if flag_v fl then Ended (Exit 0)
      else case readDomainsFromFile (world_at e 0) (flag_file fl) of
        Inl c \<Rightarrow> Ended c
      | Inr domains \<Rightarrow>
         (case updateAndStoreFastestDomains srt (flag_threads fl) (world_at e 0) domains zero_globals of
            Inl c \<Rightarrow> Ended c
          | Inr (domains', g') \<Rightarrow>
             (case r_Run e 0 of
                Blocks \<Rightarrow> Serving g' 0
              | ReturnsError \<Rightarrow> ticker_loop srt fl e ticks 0 domains' g')))"

text \<open>The number of refresh cycles the ticker loop has completed.\<close>

fun refresh_cycles :: "outcome \<Rightarrow> nat" where
  "refresh_cycles (Ended c) = 0"
| "refresh_cycles (Serving g k) = k"
| "refresh_cycles (AwaitingTick g k) = k"

subsection \<open>Concrete inputs\<close>

text \<open>
  A network in which \<open>y.test\<close> answers the ping in 30 ms, \<open>z.test\<close> and \<open>c.test\<close> in 10 ms,
  \<open>a.test\<close> and \<open>b.test\<close> in 50 ms, all of them serving every download in 100 ms;
  \<open>slow.test\<close> answers the ping in 80 ms and fails every download; every other host
  (\<open>x.test\<close>, the empty name) cannot be pinged.
\<close>

definition answers_in :: "nat \<Rightarrow> ping_run" where
  "answers_in ms = Finished \<lparr>PacketLoss = 0, AvgRtt = int ms * 1000000\<rparr>"

definition example_net :: net where
  "example_net =
     \<lparr>ping = (\<lambda>i name.
        if name = ''y.test'' then answers_in 30
        else if name = ''z.test'' \<or> name = ''c.test'' then answers_in 10
        else if name = ''a.test'' \<or> name = ''b.test'' then answers_in 50
        else if name = ''slow.test'' then answers_in 80
        else RunFails),
      http_get = (\<lambda>i name k. if name = ''slow.test'' then GetError else Response 100)\<rparr>"

text \<open>
  A world over that network whose files all.txt, multi.txt and single.txt hold the given
  lines; no other file exists.
\<close>

definition example_world :: "string list \<Rightarrow> string list \<Rightarrow> string list \<Rightarrow> world" where
  "example_world all_lines multi_lines single_lines =
     \<lparr>files = (\<lambda>f. if f = ''all.txt'' then Some all_lines
                  else if f = ''multi.txt'' then Some multi_lines
                  else if f = ''single.txt'' then Some single_lines else None),
      all_net = example_net,
      file_net = (\<lambda>f. example_net)\<rparr>"

text \<open>
  A network in which \<open>t13.test\<close> answers the ping in 10 ms and every other host in 50 ms, all
  downloads taking 100 ms; and a list of thirteen hosts, \<open>t13.test\<close> last.
\<close>

definition tie_net :: net where
  "tie_net =
     \<lparr>ping = (\<lambda>i name. if name = ''t13.test'' then answers_in 10 else answers_in 50),
      http_get = (\<lambda>i name k. Response 100)\<rparr>"

definition thirteen_hosts :: "Domain list" where
  "thirteen_hosts = map new_Domain
     [''t01.test'', ''t02.test'', ''t03.test'', ''t04.test'', ''t05.test'', ''t06.test'',
      ''t07.test'', ''t08.test'', ''t09.test'', ''t10.test'', ''t11.test'', ''t12.test'',
      ''t13.test'']"

text \<open>The default file name, four download threads; an environment that never changes.\<close>

definition example_flags :: flags where
  "example_flags = \<lparr>flag_v = False, flag_file = ''all.txt'', flag_threads = 4\<rparr>"

definition steady_env :: "world \<Rightarrow> run_result \<Rightarrow> env" where
  "steady_env w r = \<lparr>world_at = (\<lambda>k. w), r_Run = (\<lambda>k. r)\<rparr>"

text \<open>
  An environment in which the world is \<open>w0\<close> at startup and \<open>w1\<close> from the first tick on, the
  server cannot be started at startup (the port is taken, say) and starts after the first
  tick.
\<close>

definition late_start_env :: "world \<Rightarrow> world \<Rightarrow> env" where
  "late_start_env w0 w1 =
     \<lparr>world_at = (\<lambda>k. if k = 0 then w0 else w1),
      r_Run = (\<lambda>k. if k = 0 then ReturnsError else Blocks)\<rparr>"

section \<open>Properties\<close>

subsection \<open>Auxiliary facts\<close>

lemma sorted_wrt_Less: "sorted_wrt (\<lambda>a b. \<not> ByLatency_Less b a) ys \<longleftrightarrow> sorted (map Latency ys)"
  by (simp add: ByLatency_Less_def sorted_map not_less)

lemma insertion_sort_ok: "sort_Sort_ok insertion_sort"
  by (simp add: sort_Sort_ok_def sort_Sort_post_def insertion_sort_def sorted_wrt_Less)

lemma wrap64_id: "- (2 ^ 63) \<le> x \<Longrightarrow> x < 2 ^ 63 \<Longrightarrow> wrap64 x = x"
  by (simp add: wrap64_def)

lemma wrap64_0: "wrap64 0 = 0"
  by (simp add: wrap64_def)

lemma wrap64_add: "wrap64 (wrap64 a + b) = wrap64 (a + b)"
proof -
  have "(wrap64 a + b + 2 ^ 63) mod 2 ^ 64 = ((a + 2 ^ 63) mod 2 ^ 64 + b) mod (2 ^ 64 :: int)"
    by (simp add: wrap64_def)
  also have "\<dots> = (a + 2 ^ 63 + b) mod 2 ^ 64"
    by (rule mod_add_left_eq)
  finally have "(wrap64 a + b + 2 ^ 63) mod 2 ^ 64 = (a + b + 2 ^ 63) mod (2 ^ 64 :: int)"
    by (simp only: ac_simps)
  then show ?thesis
    unfolding wrap64_def [of "wrap64 a + b"] wrap64_def [of "a + b"] by simp
qed

text \<open>The loop computes the wrapped sum and the wrapped count of the values other than \<open>-1\<close>.\<close>

lemma receive_sums:
  "receive (wrap64 t) (wrap64 c) vs =
     (wrap64 (t + sum_list (filter (\<lambda>v. v \<noteq> - 1) vs)),
      wrap64 (c + int (length (filter (\<lambda>v. v \<noteq> - 1) vs))))"
proof (induction vs arbitrary: t c)
  case Nil
  show ?case by simp
next
  case (Cons v vs)
  show ?case
  proof (cases "v = - 1")
    case True
    with Cons show ?thesis by simp
  next
    case False
    have "receive (wrap64 t) (wrap64 c) (v # vs) = receive (wrap64 (t + v)) (wrap64 (c + 1)) vs"
      using False by (simp add: wrap64_add)
    also have "\<dots> = (wrap64 (t + v + sum_list (filter (\<lambda>v. v \<noteq> - 1) vs)),
      wrap64 (c + 1 + int (length (filter (\<lambda>v. v \<noteq> - 1) vs))))"
      by (rule Cons.IH)
    finally show ?thesis using False by (simp add: ac_simps)
  qed
qed

lemma receive_0:
  "receive 0 0 vs =
     (wrap64 (sum_list (filter (\<lambda>v. v \<noteq> - 1) vs)),
      wrap64 (int (length (filter (\<lambda>v. v \<noteq> - 1) vs))))"
  using receive_sums [of 0 0 vs] by (simp add: wrap64_0)

text \<open>The order in which the values arrive on the channel does not matter.\<close>

lemma download_any_order: "mset vs = mset vs' \<Longrightarrow> receive 0 0 vs = receive 0 0 vs'"
proof -
  assume eq: "mset vs = mset vs'"
  let ?P = "\<lambda>v::int. v \<noteq> - 1"
  have m: "mset (filter ?P vs) = mset (filter ?P vs')"
    using eq by (simp only: mset_filter)
  have "sum_mset (mset (filter ?P vs)) = sum_mset (mset (filter ?P vs'))"
    using m by simp
  then have s: "sum_list (filter ?P vs) = sum_list (filter ?P vs')"
    by (simp only: sum_mset_sum_list)
  have "size (mset (filter ?P vs)) = size (mset (filter ?P vs'))"
    using m by simp
  then have l: "length (filter ?P vs) = length (filter ?P vs')"
    by (simp only: size_mset)
  show ?thesis by (simp only: receive_0 s l)
qed

lemma filter_sent: "filter (\<lambda>v. v \<noteq> - 1) (map sent outcomes) = map int (succeeded outcomes)"
  by (induction outcomes rule: succeeded.induct) auto

lemma succeeded_Nil: "succeeded outcomes = [] \<longleftrightarrow> (\<forall>a \<in> set outcomes. a = GetError)"
  by (induction outcomes rule: succeeded.induct) auto

lemma length_succeeded: "length (succeeded outcomes) \<le> length outcomes"
  by (induction outcomes rule: succeeded.induct) auto

lemma sum_list_int: "sum_list (map int ns) = int (sum_list ns)"
  by (induction ns) auto

lemma download_eq:
  "download thr get =
    (let es = succeeded (attempts thr get) in
     if wrap64 (int (length es)) = 0 then (- 1, Some ErrNodeAbnormal)
     else (go_div (wrap64 (int (sum_list es))) (wrap64 (int (length es))), None))"
proof -
  have "map (\<lambda>i. sent (get i)) [0..<nat thr] = map sent (attempts thr get)"
    by (simp add: attempts_def)
  then show ?thesis
    by (simp add: download_def receive_0 filter_sent sum_list_int Let_def)
qed

lemma go_div_nonneg: "0 \<le> a \<Longrightarrow> 0 < b \<Longrightarrow> go_div a b = a div b"
  by (cases "a = 0") (simp_all add: go_div_def)

lemma tping_answers_in: "tping (answers_in ms) = (int ms, None)"
  by (simp add: answers_in_def Milliseconds_def)

lemma download_4_100: "download 4 (\<lambda>k. Response 100) = (100, None)"
  by (simp add: download_def wrap64_def go_div_def upt_rec)

lemma download_4_fail: "download 4 (\<lambda>k. GetError) = (- 1, Some ErrNodeAbnormal)"
  by (simp add: download_def upt_rec)

lemma example_net_rtt: "ping example_net i name = Finished s \<Longrightarrow> 0 \<le> AvgRtt s"
  by (auto simp add: example_net_def answers_in_def split: if_splits)

lemmas eval_defs =
  findFastestDomain_def readDomainsFromFile_def example_world_def ranked_def
  measureLatencyAndDownload_def excludeDownloadError_def measure_one_def
  updateAndStoreFastestDomains_def updateDomainsLatency_def update_latency_def
  example_net_def new_Domain_def tping_answers_in download_4_100 download_4_fail
  enumerate_eq_zip upt_rec

lemma tping_error: "snd (tping p) \<noteq> None \<Longrightarrow> fst (tping p) = - 1"
  by (cases p) (auto split: if_splits)

text \<open>With round trip times that are not negative, \<open>-1\<close> is returned for a failed probe only.\<close>

lemma tping_nonneg_rtt:
  assumes "\<And>s. p = Finished s \<Longrightarrow> 0 \<le> AvgRtt s"
  shows "- 1 \<le> fst (tping p)" and "fst (tping p) = - 1 \<Longrightarrow> snd (tping p) \<noteq> None"
proof -
  have ms: "0 \<le> Milliseconds (AvgRtt s)" if "p = Finished s" for s
    using assms [OF that] by (simp add: Milliseconds_def)
  show "- 1 \<le> fst (tping p)"
    using ms by (cases p) auto
  show "fst (tping p) = - 1 \<Longrightarrow> snd (tping p) \<noteq> None"
    using ms by (cases p) (auto split: if_splits)
qed

lemma length_updateDomainsLatency: "length (updateDomainsLatency n ds) = length ds"
  by (simp add: updateDomainsLatency_def)

lemma nth_updateDomainsLatency:
  "i < length ds \<Longrightarrow>
   updateDomainsLatency n ds ! i = (ds ! i)\<lparr>Latency := fst (tping (ping n i (Name (ds ! i))))\<rparr>"
  by (simp add: updateDomainsLatency_def update_latency_def nth_enumerate_eq)

lemma updateDomainsLatency_fields:
  "map Name (updateDomainsLatency n ds) = map Name ds"
  "map Download (updateDomainsLatency n ds) = map Download ds"
  "map DownloadErr (updateDomainsLatency n ds) = map DownloadErr ds"
  by (rule nth_equalityI; simp add: length_updateDomainsLatency nth_updateDomainsLatency)+

lemma updateDomainsLatency_no_http:
  "updateDomainsLatency (n\<lparr>http_get := h\<rparr>) ds = updateDomainsLatency n ds"
  by (simp add: updateDomainsLatency_def update_latency_def)

lemma sort_Sort_okD:
  assumes "sort_Sort_ok srt"
  shows "mset (srt xs) = mset xs" and "sorted (map Latency (srt xs))"
    and "set (srt xs) = set xs" and "length (srt xs) = length xs"
proof -
  show m: "mset (srt xs) = mset xs" and "sorted (map Latency (srt xs))"
    using assms by (simp_all add: sort_Sort_ok_def sort_Sort_post_def sorted_wrt_Less)
  show "set (srt xs) = set xs" using m by (rule mset_eq_setD)
  show "length (srt xs) = length xs" using m by (rule mset_eq_length)
qed

lemma sorted_first_least:
  assumes "sorted (map Latency ys)" and "d \<in> set ys"
  shows "Latency (hd ys) \<le> Latency d"
proof (cases ys)
  case Nil
  with assms show ?thesis by simp
next
  case (Cons y ys')
  with assms show ?thesis by auto
qed

lemma first_Name_Inr: "first_Name xs = Inr a \<longleftrightarrow> xs \<noteq> [] \<and> a = Name (hd xs)"
  by (cases xs) auto

text \<open>What a refresh cycle that returns has done.\<close>

lemma updateAndStore_InrD:
  assumes "updateAndStoreFastestDomains srt thr w ds g = Inr (ds', g')"
  shows "ds' = srt (updateDomainsLatency (all_net w) ds)"
    and "first_Name ds' = Inr (allfastestdomain g')"
    and "findFastestDomain srt thr w ''multi.txt'' = Inr (multifastestdomain g')"
    and "findFastestDomain srt thr w ''single.txt'' = Inr (singlefastestdomain g')"
    and "g' = \<lparr>multifastestdomain = multifastestdomain g',
                singlefastestdomain = singlefastestdomain g',
                allfastestdomain = allfastestdomain g'\<rparr>"
  using assms
  by (auto simp add: updateAndStoreFastestDomains_def Let_def split: sum.splits)

text \<open>The filter leaves no candidate with the flag set, whatever the flags were before.\<close>

lemma measureLatencyAndDownload_no_DownloadErr:
  "d \<in> set (measureLatencyAndDownload thr n ds) \<Longrightarrow> \<not> DownloadErr d"
  by (simp add: measureLatencyAndDownload_def excludeDownloadError_def)


text \<open>sort.Sort on a slice of at most 12 elements: the stable insertion sort.\<close>

lemma Swap_adjacent:
  "length pre = j \<Longrightarrow> Swap (pre @ y # x # post) (Suc j) j = pre @ x # y # post"
  by (simp add: Swap_def list_update_append nth_append)

lemma insertionSort_inner_ins:
  "length pre = j \<Longrightarrow>
   insertionSort_inner 0 j (pre @ x # post) = rev (ins_rev x (rev pre)) @ post"
proof (induction pre arbitrary: j post rule: rev_induct)
  case Nil
  then show ?case by simp
next
  case (snoc y pre)
  obtain j' where j: "j = Suc j'" "length pre = j'"
    using snoc.prems by simp
  have nth: "(pre @ y # x # post) ! Suc j' = x" "(pre @ y # x # post) ! j' = y"
    using j(2) by (simp_all add: nth_append)
  show ?case
  proof (cases "Latency x < Latency y")
    case True
    have "insertionSort_inner 0 j ((pre @ [y]) @ x # post)
        = insertionSort_inner 0 j' (pre @ x # y # post)"
      using True nth j by (simp add: Less_def ByLatency_Less_def Swap_adjacent)
    also have "\<dots> = rev (ins_rev x (rev pre)) @ y # post"
      by (rule snoc.IH [OF j(2)])
    finally show ?thesis using True by simp
  next
    case False
    then show ?thesis using nth j by (simp add: Less_def ByLatency_Less_def)
  qed
qed

lemma isort_snoc: "isort (xs @ [x]) = rev (ins_rev x (rev (isort xs)))"
  by (simp add: isort_def)

lemma length_ins_rev: "length (ins_rev x ys) = Suc (length ys)"
  by (induction ys) auto

lemma length_isort: "length (isort xs) = length xs"
  by (induction xs rule: rev_induct) (simp_all add: isort_def length_ins_rev)

lemma insertionSort_prefix:
  "i \<le> length data \<Longrightarrow> 0 < i \<Longrightarrow>
   fold (insertionSort_inner 0) [Suc 0..<i] data = isort (take i data) @ drop i data"
proof (induction i)
  case 0
  then show ?case by simp
next
  case (Suc i)
  show ?case
  proof (cases "i = 0")
    case True
    then show ?thesis using Suc.prems
      by (cases data) (simp_all add: isort_def)
  next
    case False
    then have i: "0 < i" "i < length data" using Suc.prems by simp_all
    have "fold (insertionSort_inner 0) [Suc 0..<Suc i] data
        = insertionSort_inner 0 i (fold (insertionSort_inner 0) [Suc 0..<i] data)"
      using i(1) by simp
    also have "\<dots> = insertionSort_inner 0 i (isort (take i data) @ data ! i # drop (Suc i) data)"
      using Suc.IH i by (simp add: Cons_nth_drop_Suc)
    also have "\<dots> = rev (ins_rev (data ! i) (rev (isort (take i data)))) @ drop (Suc i) data"
      using i(2) by (intro insertionSort_inner_ins) (simp add: length_isort)
    also have "\<dots> = isort (take (Suc i) data) @ drop (Suc i) data"
      using i(2) by (simp add: take_Suc_conv_app_nth isort_snoc)
    finally show ?thesis .
  qed
qed

lemma insertionSort_isort: "insertionSort data 0 (length data) = isort data"
proof (cases "data = []")
  case True
  then show ?thesis by (simp add: insertionSort_def isort_def)
next
  case False
  then show ?thesis
    using insertionSort_prefix [of "length data" data] by (simp add: insertionSort_def)
qed

lemma mset_ins_rev: "mset (ins_rev x ys) = add_mset x (mset ys)"
  by (induction ys) auto

lemma mset_isort: "mset (isort xs) = mset xs"
  by (induction xs rule: rev_induct) (simp_all add: isort_snoc mset_ins_rev, simp add: isort_def)

lemma set_ins_rev: "set (ins_rev x ys) = insert x (set ys)"
  by (induction ys) auto

lemma sorted_ins_rev:
  "sorted (rev (map Latency ys)) \<Longrightarrow> sorted (rev (map Latency (ins_rev x ys)))"
  by (induction ys) (auto simp add: sorted_append set_ins_rev)

lemma sorted_isort: "sorted (map Latency (isort xs))"
proof (induction xs rule: rev_induct)
  case Nil
  show ?case by (simp add: isort_def)
next
  case (snoc x xs)
  have "sorted (rev (map Latency (rev (isort xs))))"
    using snoc by (simp add: rev_map)
  then have "sorted (rev (map Latency (ins_rev x (rev (isort xs)))))"
    by (rule sorted_ins_rev)
  then show ?case by (simp add: isort_snoc rev_map)
qed

lemma filter_ins_rev:
  "filter (\<lambda>d. Latency d = k) (rev (ins_rev x ys))
     = filter (\<lambda>d. Latency d = k) (rev ys) @ filter (\<lambda>d. Latency d = k) [x]"
  by (induction ys) auto

lemma filter_isort: "filter (\<lambda>d. Latency d = k) (isort xs) = filter (\<lambda>d. Latency d = k) xs"
proof (induction xs rule: rev_induct)
  case Nil
  show ?case by (simp add: isort_def)
next
  case (snoc x xs)
  then show ?case by (simp add: isort_snoc filter_ins_rev)
qed

text \<open>The library's insertionSort over a whole slice is the stable sort by latency.\<close>

lemma insertionSort_sort_key: "insertionSort data 0 (length data) = sort_key Latency data"
proof -
  have "sort_key Latency data = isort data"
  proof (rule properties_for_sort_key)
    show "mset (isort data) = mset data" by (rule mset_isort)
    show "filter (\<lambda>x. Latency k = Latency x) (isort data)
        = filter (\<lambda>x. Latency k = Latency x) data" for k
    proof -
      have eq: "(\<lambda>x. Latency k = Latency x) = (\<lambda>d. Latency d = Latency k)" by auto
      show ?thesis unfolding eq by (rule filter_isort)
    qed
    show "sorted (map Latency (isort data))" by (rule sorted_isort)
  qed
  then show ?thesis by (simp add: insertionSort_isort)
qed

lemma sort_Sort_short: "length data \<le> 12 \<Longrightarrow> sort_Sort data = Some (insertion_sort data)"
proof -
  assume "length data \<le> 12"
  moreover have "length data \<le> 1 \<Longrightarrow> sort_key Latency data = data"
    by (cases data) (auto simp add: le_Suc_eq)
  ultimately show ?thesis
    by (simp add: sort_Sort_def Let_def insertion_sort_def insertionSort_sort_key)
qed

lemma insertion_sort_keeps_tie_order: "keeps_tie_order xs (insertion_sort xs)"
  by (simp add: keeps_tie_order_def insertion_sort_def list_all_iff sort_key_stable)

text \<open>The thirteen hosts measured, and what sort.Sort makes of that slice.\<close>

lemma measured_thirteen_hosts:
  "measureLatencyAndDownload 4 tie_net thirteen_hosts =
     map (\<lambda>(name, latency).
            \<lparr>Name = name, Latency = latency, Download = 100, DownloadErr = False\<rparr>)
       [(''t01.test'', 50), (''t02.test'', 50), (''t03.test'', 50), (''t04.test'', 50),
        (''t05.test'', 50), (''t06.test'', 50), (''t07.test'', 50), (''t08.test'', 50),
        (''t09.test'', 50), (''t10.test'', 50), (''t11.test'', 50), (''t12.test'', 50),
        (''t13.test'', 10)]"
  by (simp add: measureLatencyAndDownload_def excludeDownloadError_def measure_one_def
      tie_net_def thirteen_hosts_def new_Domain_def tping_answers_in download_4_100
      enumerate_eq_zip upt_rec)

lemma sort_Sort_thirteen_hosts:
  "sort_Sort (measureLatencyAndDownload 4 tie_net thirteen_hosts) =
     Some (map (\<lambda>(name, latency).
            \<lparr>Name = name, Latency = latency, Download = 100, DownloadErr = False\<rparr>)
       [(''t13.test'', 10), (''t07.test'', 50), (''t03.test'', 50), (''t04.test'', 50),
        (''t05.test'', 50), (''t06.test'', 50), (''t01.test'', 50), (''t08.test'', 50),
        (''t09.test'', 50), (''t10.test'', 50), (''t11.test'', 50), (''t12.test'', 50),
        (''t02.test'', 50)])"
  unfolding measured_thirteen_hosts by code_simp

text \<open>Every routine that is sort.Sort on this slice ranks the thirteen hosts in that order.\<close>

lemma ranked_thirteen_hosts:
  assumes "\<forall>data out. sort_Sort data = Some out \<longrightarrow> srt data = out"
  shows "map Name (ranked srt 4 tie_net thirteen_hosts) =
     [''t13.test'', ''t07.test'', ''t03.test'', ''t04.test'', ''t05.test'', ''t06.test'',
      ''t01.test'', ''t08.test'', ''t09.test'', ''t10.test'', ''t11.test'', ''t12.test'',
      ''t02.test'']"
proof -
  have "srt (measureLatencyAndDownload 4 tie_net thirteen_hosts)
      = the (sort_Sort (measureLatencyAndDownload 4 tie_net thirteen_hosts))"
    using assms sort_Sort_thirteen_hosts by simp
  then show ?thesis
    by (simp add: ranked_def sort_Sort_thirteen_hosts)
qed

lemma findFastestDomain_InrD:
  assumes "findFastestDomain srt thr w filename = Inr a"
  shows "\<exists>domains. readDomainsFromFile w filename = Inr domains
           \<and> ranked srt thr (file_net w filename) domains \<noteq> []
           \<and> a = Name (hd (ranked srt thr (file_net w filename) domains))"
  using assms by (auto simp add: findFastestDomain_def first_Name_Inr split: sum.splits)



subsection \<open>The ranking of a file's candidates\<close>

text \<open>
  Claim C1. The ranking (measureLatencyAndDownload, which ends with excludeDownloadError)
  should return no candidate with DownloadErr set and no candidate whose latency is the
  sentinel \<open>-1\<close>. The program run on the specification's own example: \<open>x.test\<close> cannot be
  pinged, \<open>y.test\<close> answers in 30 ms and \<open>z.test\<close> in 10 ms. The candidate \<open>x.test\<close> keeps the
  latency \<open>-1\<close>, its flag stays unset, the filter lets it through, the sort puts it first,
  and findFastestDomain returns it as the fastest domain of the file.
\<close>

theorem unreachable_host_is_ranked:
  "measureLatencyAndDownload 4 example_net
     [new_Domain ''x.test'', new_Domain ''y.test'', new_Domain ''z.test''] =
     [\<lparr>Name = ''x.test'', Latency = - 1, Download = 0, DownloadErr = False\<rparr>,
      \<lparr>Name = ''y.test'', Latency = 30, Download = 100, DownloadErr = False\<rparr>,
      \<lparr>Name = ''z.test'', Latency = 10, Download = 100, DownloadErr = False\<rparr>]
   \<and> ranked insertion_sort 4 example_net
     [new_Domain ''x.test'', new_Domain ''y.test'', new_Domain ''z.test''] =
     [\<lparr>Name = ''x.test'', Latency = - 1, Download = 0, DownloadErr = False\<rparr>,
      \<lparr>Name = ''z.test'', Latency = 10, Download = 100, DownloadErr = False\<rparr>,
      \<lparr>Name = ''y.test'', Latency = 30, Download = 100, DownloadErr = False\<rparr>]
   \<and> findFastestDomain insertion_sort 4
       (example_world [] [''x.test'', ''y.test'', ''z.test''] [''z.test'']) ''multi.txt''
     = Inr ''x.test''"
  by (simp add: eval_defs insertion_sort_def)

text \<open>
  Claim C2 as stated: the ranked result is sorted by latency and candidates of equal latency
  keep their input order, for every candidate list. The program sorts with sort.Sort, which
  partitions a slice of 13 elements around a pivot. Here the file lists thirteen hosts, the
  first twelve answering in 50 ms and the last in 10 ms; all pass the filter. sort.Sort
  returns the slice with \<open>t07.test\<close> before \<open>t03.test\<close> and with \<open>t02.test\<close> last: sorted by
  latency, as its contract says, but the twelve hosts of equal latency are no longer in
  their input order.
\<close>

theorem ranked_not_stable_counterexample:
  "map Latency (measureLatencyAndDownload 4 tie_net thirteen_hosts)
     = [50, 50, 50, 50, 50, 50, 50, 50, 50, 50, 50, 50, 10]
   \<and> map_option (map Name) (sort_Sort (measureLatencyAndDownload 4 tie_net thirteen_hosts)) =
     Some [''t13.test'', ''t07.test'', ''t03.test'', ''t04.test'', ''t05.test'', ''t06.test'',
           ''t01.test'', ''t08.test'', ''t09.test'', ''t10.test'', ''t11.test'', ''t12.test'',
           ''t02.test'']
   \<and> (case sort_Sort (measureLatencyAndDownload 4 tie_net thirteen_hosts) of
         Some out \<Rightarrow>
           sort_Sort_post (measureLatencyAndDownload 4 tie_net thirteen_hosts) out
           \<and> \<not> keeps_tie_order (measureLatencyAndDownload 4 tie_net thirteen_hosts) out
       | None \<Rightarrow> False)"
  by (simp add: sort_Sort_thirteen_hosts)
     (simp add: measured_thirteen_hosts keeps_tie_order_def sort_Sort_post_def sorted_wrt_Less)

text \<open>
  Claim C2, amended. For every candidate list, the ranked result is sorted non-decreasing by
  latency and holds exactly the candidates the filter let through; when at most 12
  candidates pass the filter the sort is stable, candidates of equal latency keeping their
  relative input order (latencies A:50, B:50, C:10 yield C, A, B); with more candidates it
  need not be. (\<open>srt\<close> is sort.Sort: it meets the contract of the library's documentation
  and is the library's code on slices of at most 12 elements.)
\<close>

theorem ranked_sorted_stable_when_short:
  assumes contract: "sort_Sort_ok srt"
    and library: "\<forall>data. length data \<le> 12 \<longrightarrow> sort_Sort data = Some (srt data)"
  shows "sorted (map Latency (ranked srt thr n domains))
     \<and> mset (ranked srt thr n domains) = mset (measureLatencyAndDownload thr n domains)
     \<and> (length (measureLatencyAndDownload thr n domains) \<le> 12 \<longrightarrow>
          keeps_tie_order (measureLatencyAndDownload thr n domains) (ranked srt thr n domains))"
proof -
  let ?m = "measureLatencyAndDownload thr n domains"
  have stable: "keeps_tie_order ?m (ranked srt thr n domains)" if short: "length ?m \<le> 12"
  proof -
    have "sort_Sort ?m = Some (srt ?m)" using library short by blast
    moreover have "sort_Sort ?m = Some (insertion_sort ?m)"
      using short by (rule sort_Sort_short)
    ultimately have "srt ?m = insertion_sort ?m" by simp
    then show ?thesis by (simp add: ranked_def insertion_sort_keeps_tie_order)
  qed
  show ?thesis
    using stable by (simp add: ranked_def sort_Sort_okD [OF contract])
qed

theorem ranked_sorted_stable_when_short_witness:
  "sort_Sort_ok insertion_sort
   \<and> sort_Sort (measureLatencyAndDownload 4 example_net
        [new_Domain ''a.test'', new_Domain ''b.test'', new_Domain ''c.test''])
      = Some (ranked insertion_sort 4 example_net
        [new_Domain ''a.test'', new_Domain ''b.test'', new_Domain ''c.test''])
   \<and> map Latency (measureLatencyAndDownload 4 example_net
        [new_Domain ''a.test'', new_Domain ''b.test'', new_Domain ''c.test'']) = [50, 50, 10]
   \<and> map Name (ranked insertion_sort 4 example_net
        [new_Domain ''a.test'', new_Domain ''b.test'', new_Domain ''c.test''])
      = [''c.test'', ''a.test'', ''b.test'']
   \<and> sorted (map Latency (ranked insertion_sort 4 example_net
        [new_Domain ''a.test'', new_Domain ''b.test'', new_Domain ''c.test'']))
   \<and> keeps_tie_order
        (measureLatencyAndDownload 4 example_net
          [new_Domain ''a.test'', new_Domain ''b.test'', new_Domain ''c.test''])
        (ranked insertion_sort 4 example_net
          [new_Domain ''a.test'', new_Domain ''b.test'', new_Domain ''c.test''])"
proof -
  let ?ds = "[new_Domain ''a.test'', new_Domain ''b.test'', new_Domain ''c.test'']"
  have library: "\<forall>data. length data \<le> 12 \<longrightarrow> sort_Sort data = Some (insertion_sort data)"
    by (simp add: sort_Sort_short)
  have m: "map Latency (measureLatencyAndDownload 4 example_net ?ds) = [50, 50, 10]"
    by (simp add: eval_defs)
  then have "length (map Latency (measureLatencyAndDownload 4 example_net ?ds)) \<le> 12"
    by simp
  then have short: "length (measureLatencyAndDownload 4 example_net ?ds) \<le> 12"
    by simp
  have r: "map Name (ranked insertion_sort 4 example_net ?ds) = [''c.test'', ''a.test'', ''b.test'']"
    by (simp add: eval_defs insertion_sort_def)
  have e: "sort_Sort (measureLatencyAndDownload 4 example_net ?ds)
      = Some (ranked insertion_sort 4 example_net ?ds)"
    using library short by (simp add: ranked_def)
  from ranked_sorted_stable_when_short [OF insertion_sort_ok library, of 4 example_net ?ds]
    short insertion_sort_ok m r e
  show ?thesis by blast
qed

text \<open>
  Claim C3. With an empty candidate list, or with every candidate filtered out, the ranking
  is empty and the caller should cope. The ranking is empty indeed; findFastestDomain then
  indexes element 0 of the empty slice and the process panics, and so does the refresh
  cycle that called it, for an empty multi.txt, for a multi.txt whose only host fails every
  download, and for an empty main list; main ends with that panic.
\<close>

theorem empty_ranking_panics:
  "ranked insertion_sort 4 example_net [] = []
   \<and> findFastestDomain insertion_sort 4 (example_world [] [] [''z.test'']) ''multi.txt''
      = Inl PanicIndexOutOfRange
   \<and> ranked insertion_sort 4 example_net [new_Domain ''slow.test''] = []
   \<and> findFastestDomain insertion_sort 4 (example_world [] [''slow.test''] [''z.test'']) ''multi.txt''
      = Inl PanicIndexOutOfRange
   \<and> updateAndStoreFastestDomains insertion_sort 4
        (example_world [''z.test''] [''slow.test''] [''z.test'']) [new_Domain ''z.test'']
        \<lparr>multifastestdomain = ''fast.example.com'', singlefastestdomain = ''z.test'',
          allfastestdomain = ''z.test''\<rparr>
      = Inl PanicIndexOutOfRange
   \<and> updateAndStoreFastestDomains insertion_sort 4
        (example_world [] [''z.test''] [''z.test'']) [] zero_globals
      = Inl PanicIndexOutOfRange
   \<and> main insertion_sort example_flags
        (steady_env (example_world [''z.test''] [] [''z.test'']) Blocks) 0
      = Ended PanicIndexOutOfRange"
  by (simp add: eval_defs insertion_sort_def main_def steady_env_def example_flags_def)

subsection \<open>The stored selections\<close>

text \<open>
  Claim C4 as stated: a publish with an empty host name after a publish of \<open>h\<close> leaves \<open>h\<close> in
  place. The program assigns whatever name comes first. At startup multi.txt holds
  \<open>y.test\<close>, which is stored in multifastestdomain. By the next cycle multi.txt has become
  one blank line: the candidate with the empty name cannot be pinged, is ranked first, and
  the variable is overwritten with the empty string, which the handler of /multi then
  reads.
\<close>

theorem empty_name_overwrites_counterexample:
  "updateAndStoreFastestDomains insertion_sort 4
     (example_world [''z.test''] [''y.test''] [''z.test'']) [new_Domain ''z.test''] zero_globals
   = Inr ([\<lparr>Name = ''z.test'', Latency = 10, Download = 0, DownloadErr = False\<rparr>],
          \<lparr>multifastestdomain = ''y.test'', singlefastestdomain = ''z.test'',
            allfastestdomain = ''z.test''\<rparr>)
   \<and> updateAndStoreFastestDomains insertion_sort 4
     (example_world [''z.test''] [''''] [''z.test''])
     [\<lparr>Name = ''z.test'', Latency = 10, Download = 0, DownloadErr = False\<rparr>]
     \<lparr>multifastestdomain = ''y.test'', singlefastestdomain = ''z.test'',
       allfastestdomain = ''z.test''\<rparr>
   = Inr ([\<lparr>Name = ''z.test'', Latency = 10, Download = 0, DownloadErr = False\<rparr>],
          \<lparr>multifastestdomain = '''', singlefastestdomain = ''z.test'',
            allfastestdomain = ''z.test''\<rparr>)
   \<and> main insertion_sort example_flags
        (late_start_env (example_world [''z.test''] [''y.test''] [''z.test''])
           (example_world [''z.test''] [''''] [''z.test''])) 1
      = Serving \<lparr>multifastestdomain = '''', singlefastestdomain = ''z.test'',
                 allfastestdomain = ''z.test''\<rparr> 1
   \<and> selection \<lparr>multifastestdomain = '''', singlefastestdomain = ''z.test'',
                 allfastestdomain = ''z.test''\<rparr> Multi = ''''"
  by (simp add: eval_defs insertion_sort_def zero_globals_def main_def late_start_env_def
      example_flags_def)

text \<open>
  Claim C4, amended. A refresh cycle that completes overwrites the variable of every group
  with the name of element 0 of that group's newly sorted list; the previous values play no
  part and nothing of them is retained (started from any other values \<open>g0\<close>, the cycle ends
  with the same ones), so a read after the cycle returns the newly stored name.
\<close>

theorem refresh_overwrites_selections:
  assumes ok: "sort_Sort_ok srt"
    and run: "updateAndStoreFastestDomains srt thr w ds g = Inr (ds', g')"
  shows "ds' = srt (updateDomainsLatency (all_net w) ds)
     \<and> sorted (map Latency ds')
     \<and> ds' \<noteq> []
     \<and> selection g' All = Name (hd ds')
     \<and> (\<exists>lst. readDomainsFromFile w ''multi.txt'' = Inr lst
           \<and> ranked srt thr (file_net w ''multi.txt'') lst \<noteq> []
           \<and> sorted (map Latency (ranked srt thr (file_net w ''multi.txt'') lst))
           \<and> selection g' Multi = Name (hd (ranked srt thr (file_net w ''multi.txt'') lst)))
     \<and> (\<exists>lst. readDomainsFromFile w ''single.txt'' = Inr lst
           \<and> ranked srt thr (file_net w ''single.txt'') lst \<noteq> []
           \<and> sorted (map Latency (ranked srt thr (file_net w ''single.txt'') lst))
           \<and> selection g' Single = Name (hd (ranked srt thr (file_net w ''single.txt'') lst)))
     \<and> updateAndStoreFastestDomains srt thr w ds g0 = Inr (ds', g')"
proof -
  note d = updateAndStore_InrD [OF run]
  have srt: "sorted (map Latency ds')"
    unfolding d(1) by (rule sort_Sort_okD(2) [OF ok])
  have hd: "ds' \<noteq> [] \<and> selection g' All = Name (hd ds')"
    using d(2) by (simp add: first_Name_Inr)
  have of_file: "\<exists>lst. readDomainsFromFile w f = Inr lst
           \<and> ranked srt thr (file_net w f) lst \<noteq> []
           \<and> sorted (map Latency (ranked srt thr (file_net w f) lst))
           \<and> a = Name (hd (ranked srt thr (file_net w f) lst))"
    if "findFastestDomain srt thr w f = Inr a" for f a
    using findFastestDomain_InrD [OF that]
    by (auto simp add: ranked_def sort_Sort_okD(2) [OF ok])
  have multi: "\<exists>lst. readDomainsFromFile w ''multi.txt'' = Inr lst
           \<and> ranked srt thr (file_net w ''multi.txt'') lst \<noteq> []
           \<and> sorted (map Latency (ranked srt thr (file_net w ''multi.txt'') lst))
           \<and> selection g' Multi = Name (hd (ranked srt thr (file_net w ''multi.txt'') lst))"
    using of_file [OF d(3)] by simp
  have single: "\<exists>lst. readDomainsFromFile w ''single.txt'' = Inr lst
           \<and> ranked srt thr (file_net w ''single.txt'') lst \<noteq> []
           \<and> sorted (map Latency (ranked srt thr (file_net w ''single.txt'') lst))
           \<and> selection g' Single = Name (hd (ranked srt thr (file_net w ''single.txt'') lst))"
    using of_file [OF d(4)] by simp
  have any: "updateAndStoreFastestDomains srt thr w ds g0 = Inr (ds', g')"
    using d(2,3,4) unfolding d(1)
    by (subst d(5)) (simp add: updateAndStoreFastestDomains_def Let_def)
  from d(1) srt hd multi single any show ?thesis by blast
qed

theorem refresh_overwrites_selections_witness:
  "sort_Sort_ok insertion_sort
   \<and> updateAndStoreFastestDomains insertion_sort 4
     (example_world [] [''y.test'', ''z.test''] [''y.test''])
     [new_Domain ''y.test'', new_Domain ''z.test'']
     \<lparr>multifastestdomain = ''old.test'', singlefastestdomain = ''old.test'',
       allfastestdomain = ''old.test''\<rparr>
   = Inr ([\<lparr>Name = ''z.test'', Latency = 10, Download = 0, DownloadErr = False\<rparr>,
           \<lparr>Name = ''y.test'', Latency = 30, Download = 0, DownloadErr = False\<rparr>],
          \<lparr>multifastestdomain = ''z.test'', singlefastestdomain = ''y.test'',
            allfastestdomain = ''z.test''\<rparr>)
   \<and> selection \<lparr>multifastestdomain = ''z.test'', singlefastestdomain = ''y.test'',
            allfastestdomain = ''z.test''\<rparr> All
      = Name (hd [\<lparr>Name = ''z.test'', Latency = 10, Download = 0, DownloadErr = False\<rparr>,
                  \<lparr>Name = ''y.test'', Latency = 30, Download = 0, DownloadErr = False\<rparr>])
   \<and> updateAndStoreFastestDomains insertion_sort 4
        (example_world [] [''y.test'', ''z.test''] [''y.test''])
        [new_Domain ''y.test'', new_Domain ''z.test''] zero_globals
      = Inr ([\<lparr>Name = ''z.test'', Latency = 10, Download = 0, DownloadErr = False\<rparr>,
              \<lparr>Name = ''y.test'', Latency = 30, Download = 0, DownloadErr = False\<rparr>],
          \<lparr>multifastestdomain = ''z.test'', singlefastestdomain = ''y.test'',
            allfastestdomain = ''z.test''\<rparr>)"
proof -
  let ?w = "example_world [] [''y.test'', ''z.test''] [''y.test'']"
  let ?ds = "[new_Domain ''y.test'', new_Domain ''z.test'']"
  let ?g = "\<lparr>multifastestdomain = ''old.test'', singlefastestdomain = ''old.test'',
       allfastestdomain = ''old.test''\<rparr>"
  let ?ds' = "[\<lparr>Name = ''z.test'', Latency = 10, Download = 0, DownloadErr = False\<rparr>,
               \<lparr>Name = ''y.test'', Latency = 30, Download = 0, DownloadErr = False\<rparr>]"
  let ?g' = "\<lparr>multifastestdomain = ''z.test'', singlefastestdomain = ''y.test'',
            allfastestdomain = ''z.test''\<rparr>"
  have h: "updateAndStoreFastestDomains insertion_sort 4 ?w ?ds ?g = Inr (?ds', ?g')"
    by (simp add: eval_defs insertion_sort_def)
  note t = refresh_overwrites_selections [OF insertion_sort_ok h, of zero_globals]
  have a: "selection ?g' All = Name (hd ?ds')"
    using t by blast
  have z: "updateAndStoreFastestDomains insertion_sort 4 ?w ?ds zero_globals = Inr (?ds', ?g')"
    using t by blast
  from insertion_sort_ok h a z show ?thesis by blast
qed




subsection \<open>The refresh loop of main\<close>

text \<open>
  Claim C5. After the cycle at startup the ranking and publication should run again on
  every tick of the 10-minute ticker. In main the call of startGinServer stands before the
  ticker loop, and r.Run inside it blocks while the server listens: when the server starts,
  no tick ever leads to a refresh cycle, the run is where it was after startup however many
  ticks have passed, and it is never in the loop waiting for a tick.
\<close>

theorem serving_blocks_refresh:
  assumes "r_Run e 0 = Blocks"
  shows "main srt fl e ticks = main srt fl e 0
     \<and> refresh_cycles (main srt fl e ticks) = 0
     \<and> main srt fl e ticks \<noteq> AwaitingTick g k"
  using assms by (simp add: main_def split: sum.splits prod.splits)

theorem serving_blocks_refresh_witness:
  "r_Run (steady_env (example_world [''y.test'', ''z.test''] [''z.test''] [''y.test'']) Blocks) 0
     = Blocks
   \<and> main insertion_sort example_flags
        (steady_env (example_world [''y.test'', ''z.test''] [''z.test''] [''y.test'']) Blocks) 1000
      = Serving \<lparr>multifastestdomain = ''z.test'', singlefastestdomain = ''y.test'',
                 allfastestdomain = ''z.test''\<rparr> 0
   \<and> refresh_cycles (main insertion_sort example_flags
        (steady_env (example_world [''y.test'', ''z.test''] [''z.test''] [''y.test'']) Blocks) 1000)
      = 0"
proof -
  let ?e = "steady_env (example_world [''y.test'', ''z.test''] [''z.test''] [''y.test'']) Blocks"
  let ?g = "\<lparr>multifastestdomain = ''z.test'', singlefastestdomain = ''y.test'',
             allfastestdomain = ''z.test''\<rparr>"
  have h: "r_Run ?e 0 = Blocks"
    by (simp add: steady_env_def)
  have "main insertion_sort example_flags ?e 0 = Serving ?g 0"
    by (simp add: main_def steady_env_def example_flags_def zero_globals_def eval_defs
        insertion_sort_def)
  with serving_blocks_refresh [OF h, of insertion_sort example_flags 1000] h
  show ?thesis by simp
qed

subsection \<open>The throughput sampler\<close>

text \<open>
  Claim C6. For every host, download returns an error (with the value \<open>-1\<close>) exactly when
  all the concurrent attempts fail; otherwise it returns the arithmetic mean, in whole
  milliseconds, of the elapsed times of only the attempts that succeeded: their sum
  divided by their number, failed attempts counting neither in the sum nor in the divisor
  (3 of 5 attempts succeeding at 10, 20 and 30 ms yield 20). The quantities are Go ints:
  \<open>thr\<close> is the variable \<open>threads\<close>, and the sum of the elapsed times fits 64 bits.
\<close>

theorem download_error_or_mean:
  assumes thr: "thr < 2 ^ 63"
  shows "(list_all (\<lambda>a. a = GetError) (attempts thr get) \<longrightarrow>
            download thr get = (- 1, Some ErrNodeAbnormal))
    \<and> (\<not> list_all (\<lambda>a. a = GetError) (attempts thr get) \<longrightarrow> snd (download thr get) = None)
    \<and> (\<not> list_all (\<lambda>a. a = GetError) (attempts thr get)
          \<and> sum_list (succeeded (attempts thr get)) < 2 ^ 63 \<longrightarrow>
        download thr get =
          (int (sum_list (succeeded (attempts thr get))
                 div length (succeeded (attempts thr get))), None))"
proof -
  let ?es = "succeeded (attempts thr get)"
  have "length ?es \<le> nat thr"
    using length_succeeded [of "attempts thr get"] by (simp add: attempts_def)
  then have "int (length ?es) \<le> max 0 thr" by linarith
  then have "int (length ?es) < 2 ^ 63" using thr by simp
  then have len: "wrap64 (int (length ?es)) = int (length ?es)"
    by (simp add: wrap64_id)
  have nil: "?es = [] \<longleftrightarrow> list_all (\<lambda>a. a = GetError) (attempts thr get)"
    by (simp add: succeeded_Nil list_all_iff)
  have a: "list_all (\<lambda>a. a = GetError) (attempts thr get) \<longrightarrow>
      download thr get = (- 1, Some ErrNodeAbnormal)"
    by (simp add: download_eq nil [symmetric] Let_def wrap64_0)
  have b: "\<not> list_all (\<lambda>a. a = GetError) (attempts thr get) \<longrightarrow> snd (download thr get) = None"
    by (simp add: download_eq len nil [symmetric] Let_def)
  have c: "download thr get = (int (sum_list ?es div length ?es), None)"
    if "\<not> list_all (\<lambda>a. a = GetError) (attempts thr get)" and "sum_list ?es < 2 ^ 63"
  proof -
    have ne: "?es \<noteq> []" using that(1) nil by simp
    have s: "wrap64 (int (sum_list ?es)) = int (sum_list ?es)"
      using that(2) by (simp add: wrap64_id)
    have "go_div (int (sum_list ?es)) (int (length ?es)) = int (sum_list ?es) div int (length ?es)"
      using ne by (simp add: go_div_nonneg)
    also have "\<dots> = int (sum_list ?es div length ?es)"
      by (simp add: zdiv_int)
    finally show ?thesis using ne by (simp add: download_eq len s Let_def)
  qed
  from a b c show ?thesis by blast
qed

theorem download_error_or_mean_witness:
  "(5::int) < 2 ^ 63
   \<and> attempts 5 (from_list [GetError, Response 10, GetError, Response 20, Response 30])
      = [GetError, Response 10, GetError, Response 20, Response 30]
   \<and> download 5 (from_list [GetError, Response 10, GetError, Response 20, Response 30])
      = (20, None)
   \<and> list_all (\<lambda>a. a = GetError) (attempts 5 (from_list []))
   \<and> download 5 (from_list []) = (- 1, Some ErrNodeAbnormal)"
proof -
  let ?g = "from_list [GetError, Response 10, GetError, Response 20, Response 30]"
  have h: "(5::int) < 2 ^ 63" by simp
  have at: "attempts 5 ?g = [GetError, Response 10, GetError, Response 20, Response 30]"
    by (simp add: attempts_def from_list_def upt_rec)
  have f: "list_all (\<lambda>a. a = GetError) (attempts 5 (from_list []))"
    by (simp add: attempts_def from_list_def list_all_iff)
  have "download 5 ?g = (int (sum_list (succeeded (attempts 5 ?g))
                               div length (succeeded (attempts 5 ?g))), None)"
    using download_error_or_mean [OF h, of ?g] by (simp add: at)
  then have d: "download 5 ?g = (20, None)"
    by (simp add: at)
  have e: "download 5 (from_list []) = (- 1, Some ErrNodeAbnormal)"
    using download_error_or_mean [OF h, of "from_list []"] f by blast
  from h at d f e show ?thesis by blast
qed

subsection \<open>The probe and packet loss\<close>

text \<open>
  Claim C8. Whenever the packet loss go-ping reports is greater than zero, however small,
  tping returns the sentinel \<open>-1\<close> together with the packet-loss error; the average round
  trip time of the packets that did come back is not returned.
\<close>

theorem tping_packet_loss:
  "0 < PacketLoss stats \<Longrightarrow> tping (Finished stats) = (- 1, Some ErrPacketLoss)"
  by simp

theorem tping_packet_loss_witness:
  "0 < PacketLoss \<lparr>PacketLoss = 50, AvgRtt = 20000000\<rparr>
   \<and> tping (Finished \<lparr>PacketLoss = 50, AvgRtt = 20000000\<rparr>) = (- 1, Some ErrPacketLoss)
   \<and> Milliseconds (AvgRtt \<lparr>PacketLoss = 50, AvgRtt = 20000000\<rparr>) = 20"
  using tping_packet_loss [of "\<lparr>PacketLoss = 50, AvgRtt = 20000000\<rparr>"]
  by (simp add: Milliseconds_def)

subsection \<open>Failed probes in the sorted list\<close>

text \<open>
  Claim C9. Under ByLatency a Domain with latency \<open>-1\<close> is strictly less than any Domain
  with a latency that is not negative and not the other way round; so in a slice sorted by
  sort.Sort every candidate with latency \<open>-1\<close> stands before every candidate with a
  non-negative latency; and when a refresh cycle returns in which the probe of some host of
  the main list failed (round trip times being non-negative), element 0 has latency \<open>-1\<close>
  and the name stored in allfastestdomain is the name of a host whose probe failed.
\<close>

theorem failed_probe_ranks_first:
  assumes ok: "sort_Sort_ok srt"
  shows "(Latency a = - 1 \<and> 0 \<le> Latency b \<longrightarrow> ByLatency_Less a b \<and> \<not> ByLatency_Less b a)
    \<and> (\<forall>i j. i < length xs \<and> j < length xs
           \<and> Latency (srt xs ! i) = - 1 \<and> 0 \<le> Latency (srt xs ! j) \<longrightarrow> i < j)
    \<and> (updateAndStoreFastestDomains srt thr w ds g = Inr (ds', g')
        \<and> (\<exists>i < length ds. snd (tping (ping (all_net w) i (Name (ds ! i)))) \<noteq> None)
        \<and> (\<forall>i < length ds. \<forall>s.
              ping (all_net w) i (Name (ds ! i)) = Finished s \<longrightarrow> 0 \<le> AvgRtt s)
        \<longrightarrow> Latency (hd ds') = - 1
          \<and> (\<exists>i < length ds. snd (tping (ping (all_net w) i (Name (ds ! i)))) \<noteq> None
                \<and> allfastestdomain g' = Name (ds ! i)))"
proof -
  have a: "Latency a = - 1 \<and> 0 \<le> Latency b \<longrightarrow> ByLatency_Less a b \<and> \<not> ByLatency_Less b a"
    by (simp add: ByLatency_Less_def)
  have b: "i < j"
    if "i < length xs" "j < length xs" "Latency (srt xs ! i) = - 1" "0 \<le> Latency (srt xs ! j)"
    for i j
  proof (rule ccontr)
    assume "\<not> i < j"
    then have "j \<le> i" by simp
    moreover have "i < length (map Latency (srt xs))"
      using that(1) by (simp add: sort_Sort_okD(4) [OF ok])
    ultimately have "map Latency (srt xs) ! j \<le> map Latency (srt xs) ! i"
      using sort_Sort_okD(2) [OF ok, of xs] by (simp only: sorted_iff_nth_mono)
    then have "Latency (srt xs ! j) \<le> Latency (srt xs ! i)"
      using that(1,2) by (simp add: sort_Sort_okD(4) [OF ok])
    with that(3,4) show False by simp
  qed
  have c: "Latency (hd ds') = - 1
          \<and> (\<exists>i < length ds. snd (tping (ping (all_net w) i (Name (ds ! i)))) \<noteq> None
                \<and> allfastestdomain g' = Name (ds ! i))"
    if run: "updateAndStoreFastestDomains srt thr w ds g = Inr (ds', g')"
      and failed: "\<exists>i < length ds. snd (tping (ping (all_net w) i (Name (ds ! i)))) \<noteq> None"
      and rtt: "\<forall>i < length ds. \<forall>s.
              ping (all_net w) i (Name (ds ! i)) = Finished s \<longrightarrow> 0 \<le> AvgRtt s"
  proof -
    let ?u = "updateDomainsLatency (all_net w) ds"
    let ?p = "\<lambda>i. ping (all_net w) i (Name (ds ! i))"
    note d = updateAndStore_InrD [OF run]
    have set_eq: "set ds' = set ?u"
      unfolding d(1) by (rule sort_Sort_okD(3) [OF ok])
    have srt: "sorted (map Latency ds')"
      unfolding d(1) by (rule sort_Sort_okD(2) [OF ok])
    have ne: "ds' \<noteq> []" and nm: "allfastestdomain g' = Name (hd ds')"
      using d(2) by (simp_all add: first_Name_Inr)
    obtain i0 where i0: "i0 < length ds" "snd (tping (?p i0)) \<noteq> None"
      using failed by blast
    have "Latency (?u ! i0) = - 1"
      using i0 by (simp add: nth_updateDomainsLatency tping_error)
    moreover have "?u ! i0 \<in> set ds'"
      using i0(1) set_eq by (simp add: length_updateDomainsLatency)
    ultimately have le: "Latency (hd ds') \<le> - 1"
      using sorted_first_least [OF srt] by fastforce
    have "hd ds' \<in> set ?u" using ne set_eq by auto
    then obtain k where k: "k < length ds" "hd ds' = ?u ! k"
      by (auto simp add: in_set_conv_nth length_updateDomainsLatency)
    have lat: "Latency (hd ds') = fst (tping (?p k))"
      and name: "Name (hd ds') = Name (ds ! k)"
      using k by (simp_all add: nth_updateDomainsLatency)
    have nonneg: "\<And>s. ?p k = Finished s \<Longrightarrow> 0 \<le> AvgRtt s"
      using rtt k(1) by blast
    have "- 1 \<le> fst (tping (?p k))"
      by (rule tping_nonneg_rtt(1) [OF nonneg])
    with le lat have eq: "fst (tping (?p k)) = - 1" by simp
    have "snd (tping (?p k)) \<noteq> None"
      using nonneg eq by (rule tping_nonneg_rtt(2))
    with k(1) nm name eq lat show ?thesis by auto
  qed
  from a b c show ?thesis by blast
qed

theorem failed_probe_ranks_first_witness:
  "sort_Sort_ok insertion_sort
   \<and> ByLatency_Less \<lparr>Name = ''x.test'', Latency = - 1, Download = 0, DownloadErr = False\<rparr>
        \<lparr>Name = ''y.test'', Latency = 30, Download = 0, DownloadErr = False\<rparr>
   \<and> updateAndStoreFastestDomains insertion_sort 4
        (example_world [] [''z.test''] [''y.test''])
        [new_Domain ''y.test'', new_Domain ''x.test'', new_Domain ''z.test''] zero_globals
      = Inr ([\<lparr>Name = ''x.test'', Latency = - 1, Download = 0, DownloadErr = False\<rparr>,
              \<lparr>Name = ''z.test'', Latency = 10, Download = 0, DownloadErr = False\<rparr>,
              \<lparr>Name = ''y.test'', Latency = 30, Download = 0, DownloadErr = False\<rparr>],
             \<lparr>multifastestdomain = ''z.test'', singlefastestdomain = ''y.test'',
               allfastestdomain = ''x.test''\<rparr>)
   \<and> tping (ping example_net 1 ''x.test'') = (- 1, Some ErrRun)
   \<and> Latency (hd [\<lparr>Name = ''x.test'', Latency = - 1, Download = 0, DownloadErr = False\<rparr>,
              \<lparr>Name = ''z.test'', Latency = 10, Download = 0, DownloadErr = False\<rparr>,
              \<lparr>Name = ''y.test'', Latency = 30, Download = 0, DownloadErr = False\<rparr>]) = - 1"
proof -
  let ?w = "example_world [] [''z.test''] [''y.test'']"
  let ?ds = "[new_Domain ''y.test'', new_Domain ''x.test'', new_Domain ''z.test'']"
  let ?a = "\<lparr>Name = ''x.test'', Latency = - 1, Download = 0, DownloadErr = False\<rparr>"
  let ?b = "\<lparr>Name = ''y.test'', Latency = 30, Download = 0, DownloadErr = False\<rparr>"
  let ?ds' = "[?a, \<lparr>Name = ''z.test'', Latency = 10, Download = 0, DownloadErr = False\<rparr>, ?b]"
  let ?g' = "\<lparr>multifastestdomain = ''z.test'', singlefastestdomain = ''y.test'',
               allfastestdomain = ''x.test''\<rparr>"
  have run: "updateAndStoreFastestDomains insertion_sort 4 ?w ?ds zero_globals = Inr (?ds', ?g')"
    by (simp add: eval_defs insertion_sort_def zero_globals_def)
  have x: "tping (ping example_net 1 ''x.test'') = (- 1, Some ErrRun)"
    by (simp add: example_net_def)
  have "1 < length ?ds \<and> snd (tping (ping (all_net ?w) 1 (Name (?ds ! 1)))) \<noteq> None"
    using x by (simp add: example_world_def new_Domain_def)
  then have failed: "\<exists>i < length ?ds. snd (tping (ping (all_net ?w) i (Name (?ds ! i)))) \<noteq> None"
    by (rule exI)
  have rtt: "\<forall>i < length ?ds. \<forall>s.
      ping (all_net ?w) i (Name (?ds ! i)) = Finished s \<longrightarrow> 0 \<le> AvgRtt s"
    by (auto simp add: example_world_def dest: example_net_rtt)
  note t = failed_probe_ranks_first [OF insertion_sort_ok,
      where a = ?a and b = ?b and xs = ?ds and thr = 4 and w = ?w and ds = ?ds
        and g = zero_globals and ds' = ?ds' and g' = ?g']
  have less: "ByLatency_Less ?a ?b"
    using t by simp
  have "Latency (hd ?ds') = - 1
      \<and> (\<exists>i < length ?ds. snd (tping (ping (all_net ?w) i (Name (?ds ! i)))) \<noteq> None
            \<and> allfastestdomain ?g' = Name (?ds ! i))"
    using t run failed rtt by blast
  then have first: "Latency (hd ?ds') = - 1" ..
  from insertion_sort_ok less run x first show ?thesis by blast
qed

subsection \<open>The refresh of the main list\<close>

text \<open>
  Claim C10. The refresh of the main list only pings. updateDomainsLatency does not depend
  on the downloads and changes neither Download nor DownloadErr of any candidate;
  updateAndStoreFastestDomains filters nothing: the slice it ends with is what sort.Sort
  made of the whole updated list, sorted by latency, and holds every candidate of the list,
  as many as before and under the same names, a candidate whose probe failed among them
  with latency \<open>-1\<close>; and the name it stores in allfastestdomain is the name of the first
  element of that sorted slice.
\<close>

theorem all_refresh_keeps_every_domain:
  assumes ok: "sort_Sort_ok srt"
    and run: "updateAndStoreFastestDomains srt thr w ds g = Inr (ds', g')"
  shows "updateDomainsLatency (n\<lparr>http_get := h\<rparr>) ds = updateDomainsLatency n ds
     \<and> map Download (updateDomainsLatency n ds) = map Download ds
     \<and> map DownloadErr (updateDomainsLatency n ds) = map DownloadErr ds
     \<and> ds' = srt (updateDomainsLatency (all_net w) ds)
     \<and> sorted (map Latency ds')
     \<and> mset ds' = mset (updateDomainsLatency (all_net w) ds)
     \<and> length ds' = length ds
     \<and> mset (map Name ds') = mset (map Name ds)
     \<and> (\<forall>i < length ds. fst (tping (ping (all_net w) i (Name (ds ! i)))) = - 1 \<longrightarrow>
           (ds ! i)\<lparr>Latency := - 1\<rparr> \<in> set ds')
     \<and> ds' \<noteq> [] \<and> allfastestdomain g' = Name (hd ds')"
proof -
  let ?u = "updateDomainsLatency (all_net w) ds"
  note d = updateAndStore_InrD [OF run]
  have srtd: "sorted (map Latency ds')"
    unfolding d(1) by (rule sort_Sort_okD(2) [OF ok])
  have m: "mset ds' = mset ?u"
    unfolding d(1) by (rule sort_Sort_okD(1) [OF ok])
  have l: "length ds' = length ds"
    unfolding d(1) by (simp add: sort_Sort_okD(4) [OF ok] length_updateDomainsLatency)
  have "mset (map Name ds') = mset (map Name ?u)"
    using m by (metis mset_map)
  then have nm: "mset (map Name ds') = mset (map Name ds)"
    by (simp only: updateDomainsLatency_fields)
  have kept: "(ds ! i)\<lparr>Latency := - 1\<rparr> \<in> set ds'"
    if "i < length ds" and "fst (tping (ping (all_net w) i (Name (ds ! i)))) = - 1" for i
  proof -
    have "?u ! i = (ds ! i)\<lparr>Latency := - 1\<rparr>"
      using that by (simp add: nth_updateDomainsLatency)
    moreover have "?u ! i \<in> set ?u"
      using that(1) by (simp add: length_updateDomainsLatency)
    moreover have "set ds' = set ?u" using m by (rule mset_eq_setD)
    ultimately show ?thesis by simp
  qed
  have hd: "ds' \<noteq> [] \<and> allfastestdomain g' = Name (hd ds')"
    using d(2) by (simp add: first_Name_Inr)
  show ?thesis
    using d(1) srtd m l nm kept hd
    by (simp add: updateDomainsLatency_no_http updateDomainsLatency_fields)
qed

theorem all_refresh_keeps_every_domain_witness:
  "sort_Sort_ok insertion_sort
   \<and> updateAndStoreFastestDomains insertion_sort 4
        (example_world [] [''z.test''] [''y.test''])
        [new_Domain ''slow.test'', new_Domain ''x.test'', new_Domain ''z.test''] zero_globals
      = Inr ([\<lparr>Name = ''x.test'', Latency = - 1, Download = 0, DownloadErr = False\<rparr>,
              \<lparr>Name = ''z.test'', Latency = 10, Download = 0, DownloadErr = False\<rparr>,
              \<lparr>Name = ''slow.test'', Latency = 80, Download = 0, DownloadErr = False\<rparr>],
             \<lparr>multifastestdomain = ''z.test'', singlefastestdomain = ''y.test'',
               allfastestdomain = ''x.test''\<rparr>)
   \<and> (new_Domain ''x.test'')\<lparr>Latency := - 1\<rparr>
      \<in> set [\<lparr>Name = ''x.test'', Latency = - 1, Download = 0, DownloadErr = False\<rparr>,
              \<lparr>Name = ''z.test'', Latency = 10, Download = 0, DownloadErr = False\<rparr>,
              \<lparr>Name = ''slow.test'', Latency = 80, Download = 0, DownloadErr = False\<rparr>]"
proof -
  let ?w = "example_world [] [''z.test''] [''y.test'']"
  let ?ds = "[new_Domain ''slow.test'', new_Domain ''x.test'', new_Domain ''z.test'']"
  let ?ds' = "[\<lparr>Name = ''x.test'', Latency = - 1, Download = 0, DownloadErr = False\<rparr>,
              \<lparr>Name = ''z.test'', Latency = 10, Download = 0, DownloadErr = False\<rparr>,
              \<lparr>Name = ''slow.test'', Latency = 80, Download = 0, DownloadErr = False\<rparr>]"
  let ?g' = "\<lparr>multifastestdomain = ''z.test'', singlefastestdomain = ''y.test'',
               allfastestdomain = ''x.test''\<rparr>"
  have run: "updateAndStoreFastestDomains insertion_sort 4 ?w ?ds zero_globals = Inr (?ds', ?g')"
    by (simp add: eval_defs insertion_sort_def zero_globals_def)
  note t = all_refresh_keeps_every_domain [OF insertion_sort_ok run]
  have "\<forall>i < length ?ds. fst (tping (ping (all_net ?w) i (Name (?ds ! i)))) = - 1 \<longrightarrow>
           (?ds ! i)\<lparr>Latency := - 1\<rparr> \<in> set ?ds'"
    using t by blast
  moreover have "fst (tping (ping (all_net ?w) 1 (Name (?ds ! 1)))) = - 1"
    by (simp add: example_world_def example_net_def new_Domain_def)
  ultimately have "(?ds ! 1)\<lparr>Latency := - 1\<rparr> \<in> set ?ds'"
    by (metis One_nat_def length_Cons lessI less_Suc_eq list.size(3))
  then have "(new_Domain ''x.test'')\<lparr>Latency := - 1\<rparr> \<in> set ?ds'"
    by simp
  with insertion_sort_ok run show ?thesis by blast
qed

end
